theory Spec2Isabelle
  imports Main "HOL-Library.Word"
begin

section \<open>Go values shared by both packages\<close>

text \<open>
  A Go \<open>error\<close> is an interface value; \<open>nil\<close> is modelled by \<open>None\<close> of
  \<open>gerror option\<close>. The constructors are the ways the two source files build or
  receive errors: \<open>errors.New\<close>, \<open>fmt.Errorf\<close> with \<open>%w\<close>, \<open>errors.Join\<close>,
  and the sentinel \<open>pscompat.ErrBackendUnavailable\<close> of the transport library.
\<close>

datatype gerror =
    ErrNew string
  | ErrWrap string gerror
  | ErrJoin "gerror list"
  | ErrBackendUnavailable

text \<open>\<open>errors.Join\<close>: \<open>nil\<close> when there is nothing to join, else one error holding all.\<close>

definition errors_Join :: "gerror list \<Rightarrow> gerror option" where
  "errors_Join errs = (if errs = [] then None else Some (ErrJoin errs))"

text \<open>\<open>errors.Is\<close>: the error itself or anything it wraps equals the target.\<close>

fun is_in_chain :: "gerror \<Rightarrow> gerror \<Rightarrow> bool" where
  "is_in_chain target (ErrNew s) = (ErrNew s = target)"
| "is_in_chain target (ErrWrap s e) = (ErrWrap s e = target \<or> is_in_chain target e)"
| "is_in_chain target (ErrJoin es) = (ErrJoin es = target \<or> list_ex (is_in_chain target) es)"
| "is_in_chain target ErrBackendUnavailable = (ErrBackendUnavailable = target)"

definition errors_Is :: "gerror option \<Rightarrow> gerror \<Rightarrow> bool" where
  "errors_Is err target = (case err of None \<Rightarrow> False | Some e \<Rightarrow> is_in_chain target e)"

text \<open>
  \<open>fmt.Sprintf\<close>, for the verb the sources use (\<open>%s\<close> with string arguments; their
  format strings hold no other verb). A verb without an argument prints Go's
  \<open>%!s(MISSING)\<close>; arguments are never scanned for verbs.
\<close>

fun Sprintf :: "string \<Rightarrow> string list \<Rightarrow> string" where
  "Sprintf [] args = []"
| "Sprintf [c] args = [c]"
| "Sprintf (c # d # fmt) args =
     (if c = CHR ''%'' \<and> d = CHR ''s''
      then (case args of
              [] \<Rightarrow> ''%!s(MISSING)'' @ Sprintf fmt []
            | a # rest \<Rightarrow> a @ Sprintf fmt rest)
      else c # Sprintf (d # fmt) args)"

text \<open>
  Modelled from the spec: \<open>queuecontext.WithMetadata\<close> is declared outside the two
  source files; the spec says that the message attributes are attached to the processing
  context, where the batch processor can read them. A \<open>context.Context\<close> is modelled
  as far as the sources derive one from another, with \<open>context.WithCancel\<close> and
  \<open>queuecontext.WithMetadata\<close>.
\<close>

type_synonym attrs = "string \<rightharpoonup> string"

datatype Context =
    Background
  | WithCancel Context
  | WithMetadata Context attrs

section \<open>kafka/sasl/azure: \<open>NewFromCredential\<close>\<close>

text \<open>
  The library types the function touches: \<open>azcore.AccessToken\<close>,
  \<open>policy.TokenRequestOptions\<close> (the source sets \<open>Scopes\<close> only), \<open>oauth.Auth\<close>,
  and an \<open>azcore.TokenCredential\<close>, whose one method \<open>GetToken\<close> returns a token and
  an error.
\<close>

record AccessToken =
  Token :: string
  ExpiresOn :: int

record TokenRequestOptions =
  Scopes :: "string list"

record Auth =
  Zid :: string
  AuthToken :: string
  Extensions :: attrs

type_synonym TokenCredential =
  "Context \<Rightarrow> TokenRequestOptions \<Rightarrow> AccessToken \<times> gerror option"

text \<open>\<open>oauth.Auth{}\<close>, the zero value.\<close>

definition Auth_zero :: Auth where
  "Auth_zero = \<lparr>Zid = [], AuthToken = [], Extensions = Map.empty\<rparr>"

text \<open>\<open>oauth.Oauth(fn)\<close> wraps the callback that the SASL session calls for a token.\<close>

datatype Mechanism = Oauth "Context \<Rightarrow> Auth \<times> gerror option"

fun authFn :: "Mechanism \<Rightarrow> Context \<Rightarrow> Auth \<times> gerror option" where
  "authFn (Oauth f) = f"

definition NewFromCredential :: "TokenCredential \<Rightarrow> string \<Rightarrow> Mechanism" where
  "NewFromCredential cred ns =
     (let scope = Sprintf ''https://%s/.default'' [ns]
      in Oauth (\<lambda>ctx.
           case cred ctx \<lparr>Scopes = [scope]\<rparr> of
             (token, err) \<Rightarrow>
               if err \<noteq> None then (Auth_zero, err)
               else (\<lparr>Zid = [], AuthToken = Token token, Extensions = Map.empty\<rparr>, None)))"

section \<open>pubsublite: configuration\<close>

text \<open>
  Modelled from the spec: \<open>apmqueue.DeliveryType\<close> and its two constants are declared
  outside the two source files. The spec gives the enum \<open>{AtMostOnce, AtLeastOnce}\<close>;
  the \<open>default\<close> branch of \<open>Validate\<close> shows that the Go type has further values,
  which the third constructor stands for.
\<close>

datatype DeliveryType =
    AtMostOnceDeliveryType
  | AtLeastOnceDeliveryType
  | OtherDeliveryType nat

datatype Logger = ZapLogger string
datatype ClientOption = ClientOption string
datatype TracerProvider = OtelTracerProvider string

text \<open>
  The decoder and the batch processor are collaborators with a state of their own
  (\<open>'w\<close>), so that successive calls may answer differently. \<open>'e\<close> is
  \<open>model.APMEvent\<close>.
\<close>

type_synonym bytes = "8 word list"
type_synonym ('w, 'e) Decoder = "'w \<Rightarrow> bytes \<Rightarrow> (gerror + 'e) \<times> 'w"
type_synonym ('w, 'e) BatchProcessor = "'w \<Rightarrow> Context \<Rightarrow> 'e list \<Rightarrow> gerror option \<times> 'w"

record ('w, 'e) ConsumerConfig =
  Region :: string
  Project :: string
  Topics :: "string list"
  Decoder :: "('w, 'e) Decoder option"
  Logger :: "Logger option"
  Processor :: "('w, 'e) BatchProcessor option"
  Delivery :: DeliveryType
  ClientOpts :: "ClientOption list"
  TracerProvider :: "TracerProvider option"

record Subscription =
  SubProject :: string
  SubRegion :: string
  SubName :: string

definition Subscription_String :: "Subscription \<Rightarrow> string" where
  "Subscription_String s =
     Sprintf ''projects/%s/locations/%s/subscriptions/%s'' [SubProject s, SubRegion s, SubName s]"

definition Validate :: "('w, 'e) ConsumerConfig \<Rightarrow> gerror option" where
  "Validate cfg =
     (let errs = [];
          errs = (if length (Topics cfg) = 0
                  then errs @ [ErrNew ''pubsublite: at least one topic must be set''] else errs);
          errs = (if Project cfg = []
                  then errs @ [ErrNew ''pubsublite: project must be set''] else errs);
          errs = (if Region cfg = []
                  then errs @ [ErrNew ''pubsublite: region must be set''] else errs);
          errs = (if Decoder cfg = None
                  then errs @ [ErrNew ''pubsublite: decoder must be set''] else errs);
          errs = (if Logger cfg = None
                  then errs @ [ErrNew ''pubsublite: logger must be set''] else errs);
          errs = (if Processor cfg = None
                  then errs @ [ErrNew ''pubsublite: processor must be set''] else errs);
          errs = (case Delivery cfg of
                    AtLeastOnceDeliveryType \<Rightarrow> errs
                  | AtMostOnceDeliveryType \<Rightarrow> errs
                  | _ \<Rightarrow> errs @ [ErrNew ''pubsublite: delivery is not valid''])
      in errors_Join errs)"

section \<open>pubsublite: the per-subscription consumer\<close>

text \<open>
  A \<open>pubsub.Message\<close>: identifier, payload and attributes. \<open>Ack\<close> and \<open>Nack\<close> are
  calls on the message, recorded in the call trace below.
\<close>

record Message =
  ID :: string
  Data :: bytes
  Attributes :: attrs

text \<open>
  \<open>pscompat.ParseMessageMetadata\<close> belongs to the transport library; it is a parameter
  (\<open>pmm\<close>) of every function that reaches it. It answers \<open>None\<close> for the nil metadata
  of an identifier that does not parse.
\<close>

record MessageMetadata =
  Partition :: int
  Offset :: int

type_synonym ParseMessageMetadata = "string \<Rightarrow> MessageMetadata option"

definition partitionOffset :: "ParseMessageMetadata \<Rightarrow> string \<Rightarrow> int \<times> int" where
  "partitionOffset pmm ident =
     (case pmm ident of
        Some meta \<Rightarrow> (Partition meta, Offset meta)
      | None \<Rightarrow> (0, 0))"

text \<open>The \<open>zap\<close> fields the log calls carry.\<close>

datatype field =
    ZError gerror
  | ZByteString string bytes
  | ZInt64 string int
  | ZInt string int
  | ZAny string attrs

text \<open>
  Every call \<open>processMessage\<close> makes on a collaborator (decoder, batch processor,
  message, logger), in program order.
\<close>

datatype 'e call =
    Decode bytes
  | ProcessBatch Context "'e list"
  | Ack string
  | Nack string
  | LogError string "field list"
  | LogInfo string "field list"

text \<open>
  The mutable state \<open>processMessage\<close> works on: the consumer's \<open>failed\<close> map (a
  \<open>sync.Map\<close> from message identifier to attempt count), the trace of calls made so
  far, and the state of the decoder and processor.
\<close>

record ('w, 'e) pstate =
  failed :: "string \<rightharpoonup> int"
  calls :: "'e call list"
  ext :: 'w

definition emit :: "'e call \<Rightarrow> ('w, 'e) pstate \<Rightarrow> ('w, 'e) pstate" where
  "emit c s = s\<lparr>calls := calls s @ [c]\<rparr>"

text \<open>The three \<open>sync.Map\<close> methods used; each is one atomic step on the map.\<close>

definition LoadOrStore :: "('k \<rightharpoonup> 'v) \<Rightarrow> 'k \<Rightarrow> 'v \<Rightarrow> ('v \<times> bool) \<times> ('k \<rightharpoonup> 'v)" where
  "LoadOrStore m k v =
     (case m k of
        Some a \<Rightarrow> ((a, True), m)
      | None \<Rightarrow> ((v, False), m(k \<mapsto> v)))"

definition Store :: "('k \<rightharpoonup> 'v) \<Rightarrow> 'k \<Rightarrow> 'v \<Rightarrow> ('k \<rightharpoonup> 'v)" where
  "Store m k v = m(k \<mapsto> v)"

definition Delete :: "('k \<rightharpoonup> 'v) \<Rightarrow> 'k \<Rightarrow> ('k \<rightharpoonup> 'v)" where
  "Delete m k = m(k := None)"

text \<open>
  The immutable fields of \<open>consumer\<close>, and \<open>Receive\<close> of the embedded
  \<open>SubscriberClient\<close>: it blocks, hands messages to the handler it is given, and
  returns an error or \<open>nil\<close>.
\<close>

type_synonym ('w, 'e) handler = "Context \<Rightarrow> Message \<Rightarrow> ('w, 'e) pstate \<Rightarrow> ('w, 'e) pstate"

record ('w, 'e) consumer =
  logger :: Logger
  delivery :: DeliveryType
  processor :: "('w, 'e) BatchProcessor"
  decoder :: "('w, 'e) Decoder"
  telemetryAttributes :: "(string \<times> string) list"
  Receive :: "Context \<Rightarrow> ('w, 'e) handler \<Rightarrow> ('w, 'e) pstate \<Rightarrow> gerror option \<times> ('w, 'e) pstate"

text \<open>
  The deferred function of the \<open>AtLeastOnce\<close> branch (lines 277 to 301), run when
  \<open>processMessage\<close> returns, with the value \<open>err\<close> has then.
\<close>

definition processMessage_deferred ::
  "ParseMessageMetadata \<Rightarrow> Message \<Rightarrow> gerror option \<Rightarrow> ('w, 'e) pstate \<Rightarrow> ('w, 'e) pstate" where
  "processMessage_deferred pmm msg err s =
     (if err \<noteq> None then
        (let attempt = 1;
             ((a, ok), m) = LoadOrStore (failed s) (ID msg) attempt;
             s = s\<lparr>failed := m\<rparr>;
             attempt = (if ok then attempt + a else attempt)
         in if attempt > 2 then
              (let s = emit (Nack (ID msg)) s
               in s\<lparr>failed := Delete (failed s) (ID msg)\<rparr>)
            else s\<lparr>failed := Store (failed s) (ID msg) attempt\<rparr>)
      else
        (let (partition, offset) = partitionOffset pmm (ID msg);
             s = emit (LogInfo ''processed previously failed event''
                         [ZInt64 ''offset'' offset, ZInt ''partition'' partition,
                          ZAny ''headers'' (Attributes msg)]) s;
             s = emit (Ack (ID msg)) s
         in s\<lparr>failed := Delete (failed s) (ID msg)\<rparr>))"

text \<open>
  Lines 303 to 312: the call of the batch processor and the log on failure. The result
  is the value left in \<open>err\<close>.
\<close>

definition processMessage_process ::
  "('w, 'e) consumer \<Rightarrow> ParseMessageMetadata \<Rightarrow> Context \<Rightarrow> Message \<Rightarrow> 'e list \<Rightarrow>
   ('w, 'e) pstate \<Rightarrow> gerror option \<times> ('w, 'e) pstate" where
  "processMessage_process c pmm ctx msg batch s =
     (case processor c (ext s) ctx batch of
        (err, w) \<Rightarrow>
          (let s = emit (ProcessBatch ctx batch) (s\<lparr>ext := w\<rparr>)
           in case err of
                Some e \<Rightarrow>
                  (let (partition, offset) = partitionOffset pmm (ID msg)
                   in (err, emit (LogError ''unable to process event''
                                    [ZError e, ZInt64 ''offset'' offset,
                                     ZInt ''partition'' partition,
                                     ZAny ''headers'' (Attributes msg)]) s))
              | None \<Rightarrow> (err, s)))"

definition processMessage ::
  "('w, 'e) consumer \<Rightarrow> ParseMessageMetadata \<Rightarrow> ('w, 'e) handler" where
  "processMessage c pmm ctx msg s =
     (case decoder c (ext s) (Data msg) of
        (Inl err, w) \<Rightarrow>
          (let s = emit (Decode (Data msg)) (s\<lparr>ext := w\<rparr>);
               (partition, offset) = partitionOffset pmm (ID msg);
               s = emit (LogError ''unable to decode message.Data into model.APMEvent''
                           [ZError err, ZByteString ''message.value'' (Data msg),
                            ZInt64 ''offset'' offset, ZInt ''partition'' partition,
                            ZAny ''headers'' (Attributes msg)]) s
           in emit (Nack (ID msg)) s)
      | (Inr event, w) \<Rightarrow>
          (let s = emit (Decode (Data msg)) (s\<lparr>ext := w\<rparr>);
               batch = [event];
               ctx = WithMetadata ctx (Attributes msg)
           in case delivery c of
                AtMostOnceDeliveryType \<Rightarrow>
                  snd (processMessage_process c pmm ctx msg batch (emit (Ack (ID msg)) s))
              | AtLeastOnceDeliveryType \<Rightarrow>
                  (case processMessage_process c pmm ctx msg batch s of
                     (err, s) \<Rightarrow> processMessage_deferred pmm msg err s)
              | OtherDeliveryType n \<Rightarrow>
                  snd (processMessage_process c pmm ctx msg batch s)))"

text \<open>
  What one delivery of a message would meet in a given state: a decode failure, a
  processing failure, or success. It reads the same collaborators \<open>processMessage\<close>
  calls, with the same arguments.
\<close>

datatype outcome = DecodeFails | ProcessFails | Succeeds

definition outcome :: "('w, 'e) consumer \<Rightarrow> Context \<Rightarrow> Message \<Rightarrow> ('w, 'e) pstate \<Rightarrow> outcome" where
  "outcome c ctx msg s =
     (case decoder c (ext s) (Data msg) of
        (Inl err, w) \<Rightarrow> DecodeFails
      | (Inr event, w) \<Rightarrow>
          (case fst (processor c w (WithMetadata ctx (Attributes msg)) [event]) of
             Some e \<Rightarrow> ProcessFails
           | None \<Rightarrow> Succeeds))"

text \<open>The calls made between an earlier state and a later one.\<close>

definition new_calls :: "('w, 'e) pstate \<Rightarrow> ('w, 'e) pstate \<Rightarrow> 'e call list" where
  "new_calls s s' = drop (length (calls s)) (calls s')"

text \<open>The handler run on a sequence of deliveries, one after the other.\<close>

fun deliver ::
  "('w, 'e) consumer \<Rightarrow> ParseMessageMetadata \<Rightarrow> (Context \<times> Message) list \<Rightarrow>
   ('w, 'e) pstate \<Rightarrow> ('w, 'e) pstate" where
  "deliver c pmm [] s = s"
| "deliver c pmm ((ctx, msg) # ds) s = deliver c pmm ds (processMessage c pmm ctx msg s)"

text \<open>
  The calls that settle the message with identifier \<open>i\<close>: its acknowledgments and
  negative acknowledgments, in order.
\<close>

definition settled :: "string \<Rightarrow> 'e call list \<Rightarrow> 'e call list" where
  "settled i t = filter (\<lambda>x. x = Ack i \<or> x = Nack i) t"

section \<open>pubsublite: concurrent deliveries of one message\<close>

text \<open>
  The transport may call \<open>processMessage\<close> from several goroutines. The failure path of
  the deferred function is then a sequence of separate steps on the shared
  \<open>sync.Map\<close>, each atomic, with the local variable \<open>attempt\<close> kept between them:
  \<open>LoadOrStore\<close> (line 282); then the test of line 285 with either \<open>Nack\<close>
  (line 286) or \<open>Store\<close> (line 290); then, after a \<open>Nack\<close>, \<open>Delete\<close>
  (line 287). A goroutine's position is its program counter.
\<close>

datatype pc = AtLoadOrStore | AtTest int | AtDelete | Returned

fun deferred_step ::
  "Message \<Rightarrow> pc \<Rightarrow> ('w, 'e) pstate \<Rightarrow> pc \<times> ('w, 'e) pstate" where
  "deferred_step msg AtLoadOrStore s =
     (let attempt = 1;
          ((a, ok), m) = LoadOrStore (failed s) (ID msg) attempt
      in (AtTest (if ok then attempt + a else attempt), s\<lparr>failed := m\<rparr>))"
| "deferred_step msg (AtTest attempt) s =
     (if attempt > 2 then (AtDelete, emit (Nack (ID msg)) s)
      else (Returned, s\<lparr>failed := Store (failed s) (ID msg) attempt\<rparr>))"
| "deferred_step msg AtDelete s = (Returned, s\<lparr>failed := Delete (failed s) (ID msg)\<rparr>)"
| "deferred_step msg Returned s = (Returned, s)"

text \<open>
  A schedule names, step by step, the goroutine that moves next; all goroutines handle
  failed deliveries of the same message.
\<close>

fun run_schedule ::
  "Message \<Rightarrow> nat list \<Rightarrow> pc list \<times> ('w, 'e) pstate \<Rightarrow> pc list \<times> ('w, 'e) pstate" where
  "run_schedule msg [] cf = cf"
| "run_schedule msg (i # sched) (pcs, s) =
     (if i < length pcs
      then (case deferred_step msg (pcs ! i) s of
              (p, s') \<Rightarrow> run_schedule msg sched (pcs[i := p], s'))
      else run_schedule msg sched (pcs, s))"

text \<open>
  The schedule without interleaving: the goroutines run in the given order, each taking
  all its steps (at most three) before the next starts.
\<close>

definition one_at_a_time :: "nat list \<Rightarrow> nat list" where
  "one_at_a_time order = concat (map (\<lambda>i. [i, i, i]) order)"

section \<open>pubsublite: the consumer group\<close>

text \<open>
  \<open>Consumer\<close>. Each element of \<open>consumers\<close> is a pointer to a \<open>consumer\<close>: its
  fields and the state it works on. The mutex \<open>mu\<close> is held only inside \<open>Close\<close> and
  the first lines of \<open>Run\<close> and released before either returns or panics (the
  \<open>Unlock\<close> of \<open>Close\<close> is deferred); each call is modelled as running alone, so the
  mutex is not part of the state. A \<open>context.CancelFunc\<close> is named by the context it
  cancels.
\<close>

datatype CancelFunc = CancelFunc Context
datatype Tracer = Tracer string

record ('w, 'e) Consumer =
  cfg :: "('w, 'e) ConsumerConfig"
  consumers :: "(('w, 'e) consumer \<times> ('w, 'e) pstate) list"
  stopSubscriber :: "CancelFunc option"
  tracer :: Tracer

text \<open>A Go call either returns or panics.\<close>

datatype 'a result = Returns 'a | Panics string

text \<open>
  \<open>Close\<close>: the result, and the cancel functions it has called. Calling a nil function
  value is a run-time panic in Go.
\<close>

definition Close :: "('w, 'e) Consumer \<Rightarrow> gerror option result \<times> CancelFunc list" where
  "Close c =
     (case stopSubscriber c of
        None \<Rightarrow> (Panics ''invalid memory address or nil pointer dereference'', [])
      | Some cancel \<Rightarrow> (Returns None, [cancel]))"

text \<open>
  Lines 211 to 217 of \<open>Run\<close>, the part under the mutex: the error of a second call, or
  the derived context and the consumer with its cancel function stored.
\<close>

definition Run_start ::
  "('w, 'e) Consumer \<Rightarrow> Context \<Rightarrow> gerror + (Context \<times> ('w, 'e) Consumer)" where
  "Run_start c ctx =
     (if stopSubscriber c \<noteq> None
      then Inl (ErrNew ''pubsublite: consumer already started'')
      else (let ctx = WithCancel ctx
            in Inr (ctx, c\<lparr>stopSubscriber := Some (CancelFunc ctx)\<rparr>)))"

text \<open>
  Lines 223 to 234, the loop of one goroutine, over what one call of \<open>Receive\<close> does
  (\<open>recv\<close>). The loop has no bound: where it never returns the value is \<open>None\<close>.
\<close>

partial_function (option) receive_loop ::
  "('s \<Rightarrow> gerror option \<times> 's) \<Rightarrow> 's \<Rightarrow> (gerror option \<times> 's) option" where
  "receive_loop recv s =
     (case recv s of
        (err, s') \<Rightarrow>
          if errors_Is err ErrBackendUnavailable then receive_loop recv s'
          else Some (err, s'))"

text \<open>
  \<open>telemetry.Consumer\<close> is declared outside the two source files; it is a parameter
  (\<open>tel\<close>): from the tracer, a handler and attributes it gives the handler that
  \<open>Receive\<close> is called with. The calls on \<open>c.logger\<close> are recorded in the trace;
  the logger itself is only carried.
\<close>

type_synonym ('w, 'e) telemetry =
  "Tracer \<Rightarrow> ('w, 'e) handler \<Rightarrow> (string \<times> string) list \<Rightarrow> ('w, 'e) handler"

text \<open>Lines 224 to 228: the call of \<open>Receive\<close> that the loop of a consumer repeats.\<close>

definition Run_receive ::
  "('w, 'e) telemetry \<Rightarrow> ParseMessageMetadata \<Rightarrow> Tracer \<Rightarrow> Context \<Rightarrow> ('w, 'e) consumer \<Rightarrow>
   ('w, 'e) pstate \<Rightarrow> gerror option \<times> ('w, 'e) pstate" where
  "Run_receive tel pmm tr ctx consumer =
     Receive consumer ctx (tel tr (processMessage consumer pmm) (telemetryAttributes consumer))"

definition Run_goroutine ::
  "('w, 'e) telemetry \<Rightarrow> ParseMessageMetadata \<Rightarrow> Tracer \<Rightarrow> Context \<Rightarrow>
   ('w, 'e) consumer \<times> ('w, 'e) pstate \<Rightarrow> (gerror option \<times> ('w, 'e) pstate) option" where
  "Run_goroutine tel pmm tr ctx cs =
     (case cs of
        (consumer, s) \<Rightarrow> receive_loop (Run_receive tel pmm tr ctx consumer) s)"

text \<open>
  \<open>g.Wait()\<close> of the error group: the first non-nil error in the order in which the
  goroutines returned. \<open>order\<close> lists the goroutines in that order.
\<close>

definition errgroup_Wait :: "nat list \<Rightarrow> gerror option list \<Rightarrow> gerror option" where
  "errgroup_Wait order errs =
     (case List.find (\<lambda>i. i < length errs \<and> errs ! i \<noteq> None) order of
        None \<Rightarrow> None
      | Some i \<Rightarrow> errs ! i)"

text \<open>
  \<open>Run\<close>. \<open>g.Wait()\<close> returns when every goroutine has returned, so \<open>Run\<close> returns
  only if every loop does. The goroutines work on separate consumers, each on its own
  state.
\<close>

definition Run ::
  "('w, 'e) telemetry \<Rightarrow> ParseMessageMetadata \<Rightarrow> nat list \<Rightarrow> ('w, 'e) Consumer \<Rightarrow> Context \<Rightarrow>
   (gerror option \<times> ('w, 'e) Consumer) option" where
  "Run tel pmm order c ctx =
     (case Run_start c ctx of
        Inl err \<Rightarrow> Some (Some err, c)
      | Inr (ctx, c) \<Rightarrow>
          (let ctx = WithCancel ctx;
               outs = map (Run_goroutine tel pmm (tracer c) ctx) (consumers c)
           in if list_ex (\<lambda>out. out = None) outs then None
              else Some (errgroup_Wait order (map (\<lambda>out. fst (the out)) outs),
                         c\<lparr>consumers := map (\<lambda>((consumer, s), out). (consumer, snd (the out)))
                                            (zip (consumers c) outs)\<rparr>)))"

text \<open>The state after \<open>n\<close> calls of \<open>Receive\<close>.\<close>

definition after_calls :: "('s \<Rightarrow> gerror option \<times> 's) \<Rightarrow> nat \<Rightarrow> 's \<Rightarrow> 's" where
  "after_calls recv n s = ((\<lambda>s. snd (recv s)) ^^ n) s"

text \<open>The next call of \<open>Receive\<close> answers \<open>ErrBackendUnavailable\<close>.\<close>

definition transient :: "('s \<Rightarrow> gerror option \<times> 's) \<Rightarrow> 's \<Rightarrow> bool" where
  "transient recv s = errors_Is (fst (recv s)) ErrBackendUnavailable"

section \<open>Sample collaborators, to instantiate the theorems\<close>

definition flaky :: "nat \<Rightarrow> (nat, bytes) BatchProcessor" where
  "flaky n w ctx batch = (if w < n then Some (ErrNew ''processing failed'') else None, Suc w)"

definition decode_nonempty :: "(nat, bytes) Decoder" where
  "decode_nonempty w data = (if data = [] then Inl (ErrNew ''empty payload'') else Inr data, w)"

text \<open>
  A transport that answers \<open>ErrBackendUnavailable\<close> twice and then a fatal error; it
  counts its calls in \<open>ext\<close>.
\<close>

definition sample_Receive ::
  "Context \<Rightarrow> (nat, bytes) handler \<Rightarrow> (nat, bytes) pstate \<Rightarrow> gerror option \<times> (nat, bytes) pstate" where
  "sample_Receive ctx h s =
     (if ext s < 2 then Some (ErrWrap ''receive'' ErrBackendUnavailable)
      else Some (ErrNew ''permission denied''),
      s\<lparr>ext := Suc (ext s)\<rparr>)"

definition sample_consumer :: "DeliveryType \<Rightarrow> nat \<Rightarrow> (nat, bytes) consumer" where
  "sample_consumer d n =
     \<lparr>logger = ZapLogger ''pubsublite'', delivery = d, processor = flaky n,
      decoder = decode_nonempty, telemetryAttributes = [], Receive = sample_Receive\<rparr>"

definition sample_pmm :: ParseMessageMetadata where
  "sample_pmm ident = (if ident = ''3:41'' then Some \<lparr>Partition = 3, Offset = 41\<rparr> else None)"

definition sample_msg :: Message where
  "sample_msg = \<lparr>ID = ''3:41'', Data = [1, 2], Attributes = Map.empty\<rparr>"

definition other_msg :: Message where
  "other_msg = \<lparr>ID = ''0:7'', Data = [9], Attributes = Map.empty\<rparr>"

definition undecodable_msg :: Message where
  "undecodable_msg = \<lparr>ID = ''3:41'', Data = [], Attributes = Map.empty\<rparr>"

definition pstate0 :: "(nat, bytes) pstate" where
  "pstate0 = \<lparr>failed = Map.empty, calls = [], ext = 0\<rparr>"

definition sample_tel :: "(nat, bytes) telemetry" where
  "sample_tel tr h kvs = h"

definition sample_cfg :: "(nat, bytes) ConsumerConfig" where
  "sample_cfg =
     \<lparr>Region = ''us-central1'', Project = ''observability'', Topics = [''traces''],
      Decoder = Some decode_nonempty, Logger = Some (ZapLogger ''root''),
      Processor = Some (flaky 0), Delivery = AtLeastOnceDeliveryType,
      ClientOpts = [], TracerProvider = None\<rparr>"

text \<open>A consumer group as \<open>NewConsumer\<close> leaves it: \<open>stopSubscriber\<close> is not set.\<close>

definition sample_Consumer :: "(nat, bytes) Consumer" where
  "sample_Consumer =
     \<lparr>cfg = sample_cfg,
      consumers = [(sample_consumer AtLeastOnceDeliveryType 0, pstate0)],
      stopSubscriber = None,
      tracer = Tracer ''pubsublite''\<rparr>"

text \<open>A credential that issues a token for one scope only.\<close>

definition sample_cred :: TokenCredential where
  "sample_cred ctx opts =
     (if Scopes opts = [''https://ns.example.net/.default'']
      then (\<lparr>Token = ''secret'', ExpiresOn = 3600\<rparr>, None)
      else (\<lparr>Token = [], ExpiresOn = 0\<rparr>, Some (ErrNew ''unknown scope'')))"

section \<open>Properties of \<open>NewFromCredential\<close>\<close>

lemma Sprintf_scope: "Sprintf ''https://%s/.default'' [ns] = ''https://'' @ ns @ ''/.default''"
  by simp

text \<open>
  C10. For every credential and namespace \<open>ns\<close>, the callback of the mechanism returned by
  \<open>NewFromCredential\<close> asks the credential for a token with exactly one scope,
  \<open>"https://" + ns + "/.default"\<close>. If \<open>GetToken\<close> succeeds, the callback returns an
  \<open>Auth\<close> whose token is the returned token's \<open>Token\<close> field and no error; if it fails,
  the callback returns the zero \<open>Auth\<close> and the credential's error unchanged.
\<close>

theorem NewFromCredential_auth:
  fixes cred :: TokenCredential
  defines "req ns \<equiv> \<lparr>Scopes = [''https://'' @ ns @ ''/.default'']\<rparr>"
  shows "authFn (NewFromCredential cred ns) ctx =
           (if snd (cred ctx (req ns)) = None
            then (\<lparr>Zid = [], AuthToken = Token (fst (cred ctx (req ns))), Extensions = Map.empty\<rparr>,
                  None)
            else (Auth_zero, snd (cred ctx (req ns))))"
  unfolding req_def NewFromCredential_def Let_def Sprintf_scope
  by (simp add: case_prod_beta)


theorem NewFromCredential_auth_witness:
  "authFn (NewFromCredential sample_cred ''ns.example.net'') Background =
     (\<lparr>Zid = [], AuthToken = ''secret'', Extensions = Map.empty\<rparr>, None)
   \<and> authFn (NewFromCredential sample_cred ''other.example.net'') Background =
     (Auth_zero, Some (ErrNew ''unknown scope''))"
  using NewFromCredential_auth [of sample_cred "''ns.example.net''" Background]
    NewFromCredential_auth [of sample_cred "''other.example.net''" Background]
  by (simp add: sample_cred_def)

section \<open>Properties of \<open>Validate\<close>\<close>

lemma append_if: "(if b then xs @ [e] else xs) = xs @ (if b then [e] else [])"
  by simp

lemma delivery_case:
  "(case d of
      AtLeastOnceDeliveryType \<Rightarrow> xs
    | AtMostOnceDeliveryType \<Rightarrow> xs
    | OtherDeliveryType n \<Rightarrow> xs @ [e]) =
   xs @ (if d = AtMostOnceDeliveryType \<or> d = AtLeastOnceDeliveryType then [] else [e])"
  by (cases d) simp_all

text \<open>
  C8. \<open>Validate\<close> returns no error if and only if the topic list is non-empty, project
  and region are non-empty, decoder, logger and processor are non-nil and the delivery
  type is \<open>AtMostOnce\<close> or \<open>AtLeastOnce\<close>. In every case the result is the join of
  exactly the messages of the violated requirements, one for each, in the order of the
  checks: all violations are collected, not only the first.
\<close>

theorem Validate_aggregates:
  fixes cfg :: "('w, 'e) ConsumerConfig"
  defines "requirements \<equiv>
     [(Topics cfg \<noteq> [], ErrNew ''pubsublite: at least one topic must be set''),
      (Project cfg \<noteq> [], ErrNew ''pubsublite: project must be set''),
      (Region cfg \<noteq> [], ErrNew ''pubsublite: region must be set''),
      (Decoder cfg \<noteq> None, ErrNew ''pubsublite: decoder must be set''),
      (Logger cfg \<noteq> None, ErrNew ''pubsublite: logger must be set''),
      (Processor cfg \<noteq> None, ErrNew ''pubsublite: processor must be set''),
      (Delivery cfg = AtMostOnceDeliveryType \<or> Delivery cfg = AtLeastOnceDeliveryType,
       ErrNew ''pubsublite: delivery is not valid'')]"
  shows "(Validate cfg = None) =
           (Topics cfg \<noteq> [] \<and> Project cfg \<noteq> [] \<and> Region cfg \<noteq> [] \<and> Decoder cfg \<noteq> None
            \<and> Logger cfg \<noteq> None \<and> Processor cfg \<noteq> None
            \<and> (Delivery cfg = AtMostOnceDeliveryType \<or> Delivery cfg = AtLeastOnceDeliveryType))
       \<and> Validate cfg = errors_Join (map snd (filter (\<lambda>r. \<not> fst r) requirements))"
proof -
  have v: "Validate cfg = errors_Join (map snd (filter (\<lambda>r. \<not> fst r) requirements))"
    unfolding Validate_def Let_def requirements_def delivery_case append_if
    by simp
  have "(errors_Join (map snd (filter (\<lambda>r. \<not> fst r) requirements)) = None) =
          list_all fst requirements"
    unfolding errors_Join_def requirements_def by simp
  with v show ?thesis by (simp add: requirements_def)
qed

theorem Validate_aggregates_witness:
  "Validate (sample_cfg\<lparr>Project := [], Delivery := OtherDeliveryType 7\<rparr>) =
     Some (ErrJoin [ErrNew ''pubsublite: project must be set'',
                    ErrNew ''pubsublite: delivery is not valid''])
   \<and> Validate sample_cfg = None"
  using Validate_aggregates [of "sample_cfg\<lparr>Project := [], Delivery := OtherDeliveryType 7\<rparr>"]
    Validate_aggregates [of sample_cfg]
  by (simp add: sample_cfg_def errors_Join_def)

section \<open>Properties of \<open>processMessage\<close>\<close>

lemmas sample_defs = flaky_def decode_nonempty_def sample_consumer_def sample_pmm_def
  sample_msg_def other_msg_def undecodable_msg_def pstate0_def

lemmas eval_defs = processMessage_def processMessage_process_def processMessage_deferred_def
  LoadOrStore_def Store_def Delete_def emit_def partitionOffset_def outcome_def new_calls_def
  settled_def Let_def

lemma deferred_failure:
  "processMessage_deferred pmm msg (Some e) s =
     (case failed s (ID msg) of
        None \<Rightarrow> s\<lparr>failed := (failed s)(ID msg \<mapsto> 1)\<rparr>
      | Some a \<Rightarrow>
          if 1 + a > 2 then (emit (Nack (ID msg)) s)\<lparr>failed := (failed s)(ID msg := None)\<rparr>
          else s\<lparr>failed := (failed s)(ID msg \<mapsto> 1 + a)\<rparr>)"
  by (simp add: processMessage_deferred_def LoadOrStore_def Store_def Delete_def emit_def Let_def
      split: option.splits)

lemma deferred_success:
  "processMessage_deferred pmm msg None s =
     (s\<lparr>calls := calls s @
          [LogInfo ''processed previously failed event''
             [ZInt64 ''offset'' (snd (partitionOffset pmm (ID msg))),
              ZInt ''partition'' (fst (partitionOffset pmm (ID msg))),
              ZAny ''headers'' (Attributes msg)],
           Ack (ID msg)],
        failed := (failed s)(ID msg := None)\<rparr>)"
  by (simp add: processMessage_deferred_def Delete_def emit_def Let_def case_prod_beta)

lemma process_result:
  "processMessage_process c pmm ctx msg batch s =
     (fst (processor c (ext s) ctx batch),
      s\<lparr>ext := snd (processor c (ext s) ctx batch),
        calls := calls s @ ProcessBatch ctx batch #
          (case fst (processor c (ext s) ctx batch) of
             None \<Rightarrow> []
           | Some e \<Rightarrow> [LogError ''unable to process event''
                         [ZError e, ZInt64 ''offset'' (snd (partitionOffset pmm (ID msg))),
                          ZInt ''partition'' (fst (partitionOffset pmm (ID msg))),
                          ZAny ''headers'' (Attributes msg)]])\<rparr>)"
  by (simp add: processMessage_process_def emit_def Let_def case_prod_beta split: option.splits)

text \<open>A delivery only appends to the trace.\<close>

lemma processMessage_calls_ex:
  "\<exists>t. calls (processMessage c pmm ctx msg s) = calls s @ t"
  by (simp add: processMessage_def process_result deferred_failure deferred_success emit_def Let_def
      split: prod.splits sum.splits DeliveryType.splits option.splits)

text \<open>A delivery of one message leaves every other identifier alone.\<close>

lemma processMessage_other:
  assumes "ID msg \<noteq> i"
  shows "failed (processMessage c pmm ctx msg s) i = failed s i"
    and "settled i (new_calls s (processMessage c pmm ctx msg s)) = []"
  using assms
  by (simp_all add: processMessage_def process_result deferred_failure deferred_success emit_def
      Let_def new_calls_def settled_def
      split: prod.splits sum.splits DeliveryType.splits option.splits)

lemma new_calls_trans:
  assumes "calls s1 = calls s0 @ t1" and "calls s2 = calls s1 @ t2"
  shows "new_calls s0 s2 = new_calls s0 s1 @ new_calls s1 s2"
  using assms by (simp add: new_calls_def)

lemma settled_append: "settled i (t @ u) = settled i t @ settled i u"
  by (simp add: settled_def)

lemma settled_step:
  assumes "calls s1 = calls s0 @ t1" and "calls s2 = calls s1 @ t2"
  shows "settled i (new_calls s0 s2) = settled i (new_calls s0 s1) @ settled i (new_calls s1 s2)"
  by (simp add: new_calls_trans [OF assms] settled_append)

lemma deliver_calls_ex: "\<exists>t. calls (deliver c pmm ds s) = calls s @ t"
proof (induction ds arbitrary: s)
  case Nil
  show ?case by simp
next
  case (Cons d ds)
  obtain ctx msg where d: "d = (ctx, msg)" by (cases d)
  obtain t1 where t1: "calls (processMessage c pmm ctx msg s) = calls s @ t1"
    using processMessage_calls_ex by blast
  obtain t2 where "calls (deliver c pmm ds (processMessage c pmm ctx msg s)) =
      calls (processMessage c pmm ctx msg s) @ t2"
    using Cons.IH by blast
  with t1 d show ?case by simp
qed

lemma deliver_other:
  assumes "list_all (\<lambda>d. ID (snd d) \<noteq> i) ds"
  shows "failed (deliver c pmm ds s) i = failed s i
       \<and> settled i (new_calls s (deliver c pmm ds s)) = []"
  using assms
proof (induction ds arbitrary: s)
  case Nil
  show ?case by (simp add: new_calls_def settled_def)
next
  case (Cons d ds)
  obtain ctx msg where d: "d = (ctx, msg)" by (cases d)
  let ?s1 = "processMessage c pmm ctx msg s"
  from Cons.prems d have ne: "ID msg \<noteq> i" and rest: "list_all (\<lambda>d. ID (snd d) \<noteq> i) ds"
    by simp_all
  obtain t1 where t1: "calls ?s1 = calls s @ t1"
    using processMessage_calls_ex by blast
  obtain t2 where t2: "calls (deliver c pmm ds ?s1) = calls ?s1 @ t2"
    using deliver_calls_ex by blast
  have split: "new_calls s (deliver c pmm ds ?s1) =
      new_calls s ?s1 @ new_calls ?s1 (deliver c pmm ds ?s1)"
    by (rule new_calls_trans [OF t1 t2])
  have "failed (deliver c pmm ds ?s1) i = failed ?s1 i"
    and "settled i (new_calls ?s1 (deliver c pmm ds ?s1)) = []"
    using Cons.IH [OF rest] by simp_all
  moreover have "failed ?s1 i = failed s i" and "settled i (new_calls s ?s1) = []"
    by (simp_all add: processMessage_other [OF ne])
  ultimately show ?case
    using d split by (simp add: settled_def)
qed

lemma deliver_failed_other:
  "list_all (\<lambda>d. ID (snd d) \<noteq> i) ds \<Longrightarrow> failed (deliver c pmm ds s) i = failed s i"
  by (simp add: deliver_other)

lemma deliver_settled_other:
  "list_all (\<lambda>d. ID (snd d) \<noteq> i) ds \<Longrightarrow> settled i (new_calls s (deliver c pmm ds s)) = []"
  by (simp add: deliver_other)

text \<open>One failed delivery under \<open>AtLeastOnce\<close>, from any tracker entry.\<close>

lemma AtLeastOnce_failure_step:
  assumes "delivery c = AtLeastOnceDeliveryType"
    and "outcome c ctx msg s = ProcessFails"
  shows "failed (processMessage c pmm ctx msg s) (ID msg) =
           (case failed s (ID msg) of
              None \<Rightarrow> Some 1
            | Some a \<Rightarrow> if 1 + a > 2 then None else Some (1 + a))"
    and "settled (ID msg) (new_calls s (processMessage c pmm ctx msg s)) =
           (case failed s (ID msg) of
              None \<Rightarrow> []
            | Some a \<Rightarrow> if 1 + a > 2 then [Nack (ID msg)] else [])"
  using assms
  by (simp_all add: processMessage_def process_result deferred_failure emit_def outcome_def
      Let_def new_calls_def settled_def
      split: prod.splits sum.splits option.splits)


text \<open>
  C1. Under \<open>AtLeastOnce\<close>, let a message with no tracker entry fail processing on three
  deliveries, with any deliveries of other messages in between. After the first failure
  its attempt count is 1 and after the second it is 2, and up to then the message has been
  neither acknowledged nor negatively acknowledged; the third failure negatively
  acknowledges it (and nothing else settles it) and removes its tracker entry.
\<close>

theorem AtLeastOnce_three_failures:
  fixes c :: "('w, 'e) consumer" and s0 :: "('w, 'e) pstate"
    and pmm msg ctx1 ctx2 ctx3 ds1 ds2
  defines "s1 \<equiv> processMessage c pmm ctx1 msg s0"
  defines "r1 \<equiv> deliver c pmm ds1 s1"
  defines "s2 \<equiv> processMessage c pmm ctx2 msg r1"
  defines "r2 \<equiv> deliver c pmm ds2 s2"
  defines "s3 \<equiv> processMessage c pmm ctx3 msg r2"
  assumes al: "delivery c = AtLeastOnceDeliveryType"
    and fresh: "failed s0 (ID msg) = None"
    and o1: "list_all (\<lambda>d. ID (snd d) \<noteq> ID msg) ds1"
    and o2: "list_all (\<lambda>d. ID (snd d) \<noteq> ID msg) ds2"
    and f1: "outcome c ctx1 msg s0 = ProcessFails"
    and f2: "outcome c ctx2 msg r1 = ProcessFails"
    and f3: "outcome c ctx3 msg r2 = ProcessFails"
  shows "failed s1 (ID msg) = Some 1 \<and> failed r1 (ID msg) = Some 1
       \<and> failed s2 (ID msg) = Some 2 \<and> failed r2 (ID msg) = Some 2
       \<and> settled (ID msg) (new_calls s0 r2) = []
       \<and> settled (ID msg) (new_calls r2 s3) = [Nack (ID msg)]
       \<and> failed s3 (ID msg) = None"
proof -
  have a1: "failed s1 (ID msg) = Some 1" and b1: "settled (ID msg) (new_calls s0 s1) = []"
    unfolding s1_def using fresh by (simp_all add: AtLeastOnce_failure_step [OF al f1])
  have a1': "failed r1 (ID msg) = Some 1" and b1': "settled (ID msg) (new_calls s1 r1) = []"
    unfolding r1_def using a1
    by (simp_all add: deliver_failed_other [OF o1] deliver_settled_other [OF o1])
  have a2: "failed s2 (ID msg) = Some 2" and b2: "settled (ID msg) (new_calls r1 s2) = []"
    unfolding s2_def using a1' by (simp_all add: AtLeastOnce_failure_step [OF al f2])
  have a2': "failed r2 (ID msg) = Some 2" and b2': "settled (ID msg) (new_calls s2 r2) = []"
    unfolding r2_def using a2
    by (simp_all add: deliver_failed_other [OF o2] deliver_settled_other [OF o2])
  have a3: "failed s3 (ID msg) = None"
    and b3: "settled (ID msg) (new_calls r2 s3) = [Nack (ID msg)]"
    unfolding s3_def using a2' by (simp_all add: AtLeastOnce_failure_step [OF al f3])
  obtain t1 where t1: "calls s1 = calls s0 @ t1"
    unfolding s1_def using processMessage_calls_ex by blast
  obtain u1 where u1: "calls r1 = calls s1 @ u1"
    unfolding r1_def using deliver_calls_ex by blast
  obtain t2 where t2: "calls s2 = calls r1 @ t2"
    unfolding s2_def using processMessage_calls_ex by blast
  obtain u2 where u2: "calls r2 = calls s2 @ u2"
    unfolding r2_def using deliver_calls_ex by blast
  have c1: "calls r1 = calls s0 @ (t1 @ u1)" using t1 u1 by simp
  have c2: "calls s2 = calls s0 @ (t1 @ u1 @ t2)" using c1 t2 by simp
  have "settled (ID msg) (new_calls s0 r1) = []"
    using settled_step [OF t1 u1] b1 b1' by simp
  then have "settled (ID msg) (new_calls s0 s2) = []"
    using settled_step [OF c1 t2] b2 by simp
  then have "settled (ID msg) (new_calls s0 r2) = []"
    using settled_step [OF c2 u2] b2' by simp
  with a1 a1' a2 a2' a3 b3 show ?thesis by simp
qed

theorem AtLeastOnce_three_failures_witness:
  "let c = sample_consumer AtLeastOnceDeliveryType 9;
       s1 = processMessage c sample_pmm Background sample_msg pstate0;
       r1 = deliver c sample_pmm [(Background, other_msg)] s1;
       s2 = processMessage c sample_pmm Background sample_msg r1;
       s3 = processMessage c sample_pmm Background sample_msg s2
   in failed s1 ''3:41'' = Some 1 \<and> failed s2 ''3:41'' = Some 2 \<and> failed s3 ''3:41'' = None
      \<and> settled ''3:41'' (new_calls pstate0 s2) = []
      \<and> settled ''3:41'' (new_calls s2 s3) = [Nack ''3:41'']"
  using AtLeastOnce_three_failures [where c = "sample_consumer AtLeastOnceDeliveryType 9"
      and pmm = sample_pmm and msg = sample_msg and ?s0.0 = pstate0
      and ?ds1.0 = "[(Background, other_msg)]" and ?ds2.0 = "[]"
      and ?ctx1.0 = Background and ?ctx2.0 = Background and ?ctx3.0 = Background]
  by (simp add: sample_defs eval_defs)

text \<open>
  C3. Under \<open>AtMostOnce\<close>, a message that decodes is acknowledged exactly once and never
  negatively acknowledged; the acknowledgment comes before the call of the batch
  processor, so it is the same whether that call succeeds or fails. A failure adds only
  a log record. The tracker is not touched.
\<close>

theorem AtMostOnce_acks_first:
  fixes c :: "('w, 'e) consumer" and s :: "('w, 'e) pstate" and pmm ctx msg
  defines "s' \<equiv> processMessage c pmm ctx msg s"
  defines "ctx' \<equiv> WithMetadata ctx (Attributes msg)"
  defines "w \<equiv> snd (decoder c (ext s) (Data msg))"
  assumes "delivery c = AtMostOnceDeliveryType"
    and "fst (decoder c (ext s) (Data msg)) = Inr event"
  shows "calls s' = calls s @
           [Decode (Data msg), Ack (ID msg), ProcessBatch ctx' [event]] @
           (case fst (processor c w ctx' [event]) of
              None \<Rightarrow> []
            | Some e \<Rightarrow>
                [LogError ''unable to process event''
                   [ZError e, ZInt64 ''offset'' (snd (partitionOffset pmm (ID msg))),
                    ZInt ''partition'' (fst (partitionOffset pmm (ID msg))),
                    ZAny ''headers'' (Attributes msg)]])
       \<and> settled (ID msg) (new_calls s s') = [Ack (ID msg)]
       \<and> failed s' = failed s"
  using assms(4,5) unfolding s'_def ctx'_def w_def
  by (cases "decoder c (ext s) (Data msg)")
     (simp add: processMessage_def process_result emit_def Let_def new_calls_def settled_def
        split: option.splits)

theorem AtMostOnce_acks_first_witness:
  "calls (processMessage (sample_consumer AtMostOnceDeliveryType 1) sample_pmm Background
            sample_msg pstate0) =
     [Decode [1, 2], Ack ''3:41'', ProcessBatch (WithMetadata Background Map.empty) [[1, 2]],
      LogError ''unable to process event''
        [ZError (ErrNew ''processing failed''), ZInt64 ''offset'' 41, ZInt ''partition'' 3,
         ZAny ''headers'' Map.empty]]
   \<and> calls (processMessage (sample_consumer AtMostOnceDeliveryType 0) sample_pmm Background
            sample_msg pstate0) =
     [Decode [1, 2], Ack ''3:41'', ProcessBatch (WithMetadata Background Map.empty) [[1, 2]]]"
  using AtMostOnce_acks_first [where c = "sample_consumer AtMostOnceDeliveryType 1"
      and pmm = sample_pmm and msg = sample_msg and s = pstate0 and ctx = Background
      and event = "[1, 2]"]
    AtMostOnce_acks_first [where c = "sample_consumer AtMostOnceDeliveryType 0"
      and pmm = sample_pmm and msg = sample_msg and s = pstate0 and ctx = Background
      and event = "[1, 2]"]
  by (simp add: sample_defs partitionOffset_def)

text \<open>
  The successful delivery under \<open>AtLeastOnce\<close>: the message is acknowledged, then its
  tracker entry is removed. The notice is logged on every success, whatever the tracker
  holds.
\<close>

lemma AtLeastOnce_success:
  fixes c :: "('w, 'e) consumer" and s :: "('w, 'e) pstate" and pmm ctx msg
  defines "s' \<equiv> processMessage c pmm ctx msg s"
  assumes "delivery c = AtLeastOnceDeliveryType"
    and "fst (decoder c (ext s) (Data msg)) = Inr event"
    and "outcome c ctx msg s = Succeeds"
  shows "new_calls s s' =
           [Decode (Data msg), ProcessBatch (WithMetadata ctx (Attributes msg)) [event],
            LogInfo ''processed previously failed event''
              [ZInt64 ''offset'' (snd (partitionOffset pmm (ID msg))),
               ZInt ''partition'' (fst (partitionOffset pmm (ID msg))),
               ZAny ''headers'' (Attributes msg)],
            Ack (ID msg)]
       \<and> failed s' = (failed s)(ID msg := None)"
  using assms(2-) unfolding s'_def
  by (cases "decoder c (ext s) (Data msg)")
     (simp add: processMessage_def process_result deferred_success outcome_def Let_def
        emit_def new_calls_def split: option.splits)

lemma AtLeastOnce_success_step:
  assumes "delivery c = AtLeastOnceDeliveryType"
    and "outcome c ctx msg s = Succeeds"
  shows "failed (processMessage c pmm ctx msg s) (ID msg) = None"
    and "settled (ID msg) (new_calls s (processMessage c pmm ctx msg s)) = [Ack (ID msg)]"
  using assms
  by (simp_all add: processMessage_def process_result deferred_success emit_def outcome_def
      Let_def new_calls_def settled_def
      split: prod.splits sum.splits option.splits)

text \<open>
  Two failures and then a success: nothing settles the message during the first two
  deliveries, the third acknowledges it, and the entry, 2 before, is gone after.
\<close>

lemma AtLeastOnce_third_success:
  fixes c :: "('w, 'e) consumer" and s0 :: "('w, 'e) pstate" and pmm msg ctx1 ctx2 ctx3
  defines "s1 \<equiv> processMessage c pmm ctx1 msg s0"
  defines "s2 \<equiv> processMessage c pmm ctx2 msg s1"
  defines "s3 \<equiv> processMessage c pmm ctx3 msg s2"
  assumes al: "delivery c = AtLeastOnceDeliveryType"
    and fresh: "failed s0 (ID msg) = None"
    and f1: "outcome c ctx1 msg s0 = ProcessFails"
    and f2: "outcome c ctx2 msg s1 = ProcessFails"
    and ok: "outcome c ctx3 msg s2 = Succeeds"
  shows "settled (ID msg) (new_calls s0 s2) = [] \<and> failed s2 (ID msg) = Some 2
       \<and> settled (ID msg) (new_calls s2 s3) = [Ack (ID msg)] \<and> failed s3 (ID msg) = None"
proof -
  have a1: "failed s1 (ID msg) = Some 1" and b1: "settled (ID msg) (new_calls s0 s1) = []"
    unfolding s1_def using fresh by (simp_all add: AtLeastOnce_failure_step [OF al f1])
  have a2: "failed s2 (ID msg) = Some 2" and b2: "settled (ID msg) (new_calls s1 s2) = []"
    unfolding s2_def using a1 by (simp_all add: AtLeastOnce_failure_step [OF al f2])
  have a3: "failed s3 (ID msg) = None"
    and b3: "settled (ID msg) (new_calls s2 s3) = [Ack (ID msg)]"
    unfolding s3_def by (simp_all add: AtLeastOnce_success_step [OF al ok])
  obtain t1 where t1: "calls s1 = calls s0 @ t1"
    unfolding s1_def using processMessage_calls_ex by blast
  obtain t2 where t2: "calls s2 = calls s1 @ t2"
    unfolding s2_def using processMessage_calls_ex by blast
  have "settled (ID msg) (new_calls s0 s2) = []"
    using settled_step [OF t1 t2] b1 b2 by simp
  with a2 a3 b3 show ?thesis by simp
qed

text \<open>
  C4. The specification has the recovery notice logged only when the identifier is in
  the tracker.
  Here the tracker is empty and the message succeeds on its first delivery; the notice
  \<open>processed previously failed event\<close> is logged all the same, before the
  acknowledgment.
\<close>

theorem recovery_notice_on_first_success:
  "failed pstate0 (ID sample_msg) = None
   \<and> new_calls pstate0
        (processMessage (sample_consumer AtLeastOnceDeliveryType 0) sample_pmm Background
           sample_msg pstate0) =
       [Decode [1, 2], ProcessBatch (WithMetadata Background Map.empty) [[1, 2]],
        LogInfo ''processed previously failed event''
          [ZInt64 ''offset'' 41, ZInt ''partition'' 3, ZAny ''headers'' Map.empty],
        Ack ''3:41'']"
  by (simp add: sample_defs eval_defs)

text \<open>
  C6. A message whose payload fails to decode is negatively acknowledged at once: the
  delivery makes the decode call, logs one error record with the error, the raw payload,
  offset, partition and attributes, and negatively acknowledges the message. The batch
  processor is not called and the tracker is left as it was, so no entry is created.
\<close>

theorem decode_failure_nacks:
  fixes c :: "('w, 'e) consumer" and s :: "('w, 'e) pstate" and pmm ctx msg
  defines "s' \<equiv> processMessage c pmm ctx msg s"
  assumes "fst (decoder c (ext s) (Data msg)) = Inl err"
  shows "new_calls s s' =
           [Decode (Data msg),
            LogError ''unable to decode message.Data into model.APMEvent''
              [ZError err, ZByteString ''message.value'' (Data msg),
               ZInt64 ''offset'' (snd (partitionOffset pmm (ID msg))),
               ZInt ''partition'' (fst (partitionOffset pmm (ID msg))),
               ZAny ''headers'' (Attributes msg)],
            Nack (ID msg)]
       \<and> failed s' = failed s"
  using assms(2) unfolding s'_def
  by (cases "decoder c (ext s) (Data msg)")
     (simp add: processMessage_def emit_def Let_def new_calls_def case_prod_beta)

theorem decode_failure_nacks_witness:
  "new_calls pstate0
     (processMessage (sample_consumer AtLeastOnceDeliveryType 0) sample_pmm Background
        undecodable_msg pstate0) =
     [Decode [],
      LogError ''unable to decode message.Data into model.APMEvent''
        [ZError (ErrNew ''empty payload''), ZByteString ''message.value'' [],
         ZInt64 ''offset'' 41, ZInt ''partition'' 3, ZAny ''headers'' Map.empty],
      Nack ''3:41'']
   \<and> failed (processMessage (sample_consumer AtLeastOnceDeliveryType 0) sample_pmm Background
        undecodable_msg pstate0) = Map.empty"
  using decode_failure_nacks [where c = "sample_consumer AtLeastOnceDeliveryType 0"
      and pmm = sample_pmm and msg = undecodable_msg and s = pstate0 and ctx = Background
      and err = "ErrNew ''empty payload''"]
  by (simp add: sample_defs partitionOffset_def)


section \<open>Concurrent failed deliveries of one message\<close>

lemma run_alone:
  assumes "i < length pcs" and "pcs ! i = AtLoadOrStore"
  shows "run_schedule msg ([i, i, i] @ sched) (pcs, s) =
         run_schedule msg sched (pcs[i := Returned], processMessage_deferred pmm msg (Some e) s)"
  using assms
  by (simp add: processMessage_deferred_def LoadOrStore_def Store_def Delete_def emit_def
      Let_def split: option.splits)


lemma one_at_a_time_Cons: "one_at_a_time (i # order) = [i, i, i] @ one_at_a_time order"
  by (simp add: one_at_a_time_def)

lemma run_one_at_a_time:
  assumes "distinct order"
    and "list_all (\<lambda>i. i < length pcs \<and> pcs ! i = AtLoadOrStore) order"
  shows "run_schedule msg (one_at_a_time order) (pcs, s) =
           (fold (\<lambda>i pcs. pcs[i := Returned]) order pcs,
            (processMessage_deferred pmm msg (Some e) ^^ length order) s)"
  using assms
proof (induction order arbitrary: pcs s)
  case Nil
  show ?case by (simp add: one_at_a_time_def)
next
  case (Cons i order)
  let ?D = "processMessage_deferred pmm msg (Some e)"
  from Cons.prems have i: "i < length pcs" "pcs ! i = AtLoadOrStore"
    and d: "distinct order" and ni: "i \<notin> set order"
    and rest: "list_all (\<lambda>j. j < length pcs \<and> pcs ! j = AtLoadOrStore) order"
    by simp_all
  have rest': "list_all (\<lambda>j. j < length (pcs[i := Returned]) \<and> pcs[i := Returned] ! j = AtLoadOrStore) order"
  proof -
    have "pcs[i := Returned] ! j = pcs ! j" if "j \<in> set order" for j
      using that ni by (intro nth_list_update_neq) auto
    then show ?thesis using rest by (simp add: list_all_iff)
  qed
  have "run_schedule msg (one_at_a_time (i # order)) (pcs, s) =
        run_schedule msg (one_at_a_time order) (pcs[i := Returned], ?D s)"
    unfolding one_at_a_time_Cons by (rule run_alone [OF i])
  also have "\<dots> = (fold (\<lambda>i pcs. pcs[i := Returned]) order (pcs[i := Returned]),
                    (?D ^^ length order) (?D s))"
    by (rule Cons.IH [OF d rest'])
  finally show ?case by (simp add: funpow_swap1)
qed

lemma fold_Returned_length: "length (fold (\<lambda>i pcs. pcs[i := Returned]) order pcs) = length pcs"
  by (induction order arbitrary: pcs) simp_all

lemma fold_Returned_nth:
  "j < length pcs \<Longrightarrow>
   fold (\<lambda>i pcs. pcs[i := Returned]) order pcs ! j = (if j \<in> set order then Returned else pcs ! j)"
  by (induction order arbitrary: pcs) (auto simp: nth_list_update)

lemma fold_Returned_all:
  assumes "set order = {..<n}"
  shows "fold (\<lambda>i pcs. pcs[i := Returned]) order (replicate n AtLoadOrStore) = replicate n Returned"
  using assms
  by (intro nth_equalityI) (simp_all add: fold_Returned_length fold_Returned_nth)

lemma deferred_failure_count:
  "failed (processMessage_deferred pmm msg (Some e) s) (ID msg) =
     (case failed s (ID msg) of
        None \<Rightarrow> Some 1
      | Some a \<Rightarrow> if 1 + a > 2 then None else Some (1 + a))"
  by (simp add: deferred_failure emit_def split: option.splits)

lemma count_after_failures:
  assumes "failed s (ID msg) = None"
  shows "failed ((processMessage_deferred pmm msg (Some e) ^^ k) s) (ID msg) =
           (if k mod 3 = 0 then None else Some (int (k mod 3)))"
proof (induction k)
  case 0
  show ?case using assms by simp
next
  case (Suc k)
  have "k mod 3 = 0 \<or> k mod 3 = 1 \<or> k mod 3 = 2" by presburger
  then show ?case
    using Suc by (auto simp: deferred_failure_count mod_Suc)
qed

text \<open>
  Without interleaving no increment is lost below the ceiling: when the failed deliveries
  of one message run their deferred updates one after the other, in any order, starting
  with no tracker entry, then after \<open>n \<le> 2\<close> failures every goroutine has returned and
  the recorded count is \<open>n\<close> (no entry for \<open>n = 0\<close>).
\<close>

lemma failures_in_turn_counted:
  fixes s :: "('w, 'e) pstate"
  assumes "distinct order" and "set order = {..<n}"
    and "failed s (ID msg) = None" and "n \<le> 2"
  shows "fst (run_schedule msg (one_at_a_time order) (replicate n AtLoadOrStore, s)) =
           replicate n Returned
       \<and> failed (snd (run_schedule msg (one_at_a_time order) (replicate n AtLoadOrStore, s)))
            (ID msg) = (if n = 0 then None else Some (int n))"
proof -
  have len: "length order = n"
    using assms(1,2) distinct_card [of order] by simp
  have "list_all (\<lambda>i. i < length (replicate n AtLoadOrStore)
                      \<and> replicate n AtLoadOrStore ! i = AtLoadOrStore) order"
    using assms(2) by (auto simp: list_all_iff)
  from run_one_at_a_time [OF assms(1) this, where pmm = "\<lambda>i. None" and e = "ErrNew []"]
  have run: "run_schedule msg (one_at_a_time order) (replicate n AtLoadOrStore, s) =
      (replicate n Returned,
       (processMessage_deferred (\<lambda>i. None) msg (Some (ErrNew [])) ^^ n) s)"
    by (simp add: fold_Returned_all [OF assms(2)] len)
  have "n = 0 \<or> n = 1 \<or> n = 2" using assms(4) by arith
  then show ?thesis
    unfolding run
    using count_after_failures [OF assms(3), where pmm = "\<lambda>i. None" and e = "ErrNew []" and k = n]
    by auto
qed

text \<open>
  C2. The specification has no increment lost when deliveries of the same message fail
  concurrently: the recorded count is the number of failures. The update is
  \<open>LoadOrStore\<close> (line 282) followed later by a separate \<open>Store\<close> (line 290), not
  one atomic step. With two goroutines and the schedule \<open>[0, 1, 1, 0]\<close> the first
  stores 1, the second loads 1 and stores 2, and then the first stores its 1: both have
  returned and the count is 1 after two failures. With three goroutines and the schedule
  \<open>[0, 1, 2, 0, 1, 2]\<close> all three have returned, the count is 2 and the message has
  not been negatively acknowledged, although it has failed three times.
\<close>

theorem interleaved_failures_lose_increment:
  "fst (run_schedule sample_msg [0, 1, 1, 0] ([AtLoadOrStore, AtLoadOrStore], pstate0)) =
     [Returned, Returned]
   \<and> failed (snd (run_schedule sample_msg [0, 1, 1, 0] ([AtLoadOrStore, AtLoadOrStore], pstate0)))
        ''3:41'' = Some 1
   \<and> failed (snd (run_schedule sample_msg [0, 1, 1, 0] ([AtLoadOrStore, AtLoadOrStore], pstate0)))
        ''3:41'' \<noteq> Some 2
   \<and> fst (run_schedule sample_msg [0, 1, 2, 0, 1, 2]
            ([AtLoadOrStore, AtLoadOrStore, AtLoadOrStore], pstate0)) =
     [Returned, Returned, Returned]
   \<and> failed (snd (run_schedule sample_msg [0, 1, 2, 0, 1, 2]
                     ([AtLoadOrStore, AtLoadOrStore, AtLoadOrStore], pstate0)))
        ''3:41'' = Some 2
   \<and> calls (snd (run_schedule sample_msg [0, 1, 2, 0, 1, 2]
                    ([AtLoadOrStore, AtLoadOrStore, AtLoadOrStore], pstate0))) = []"
  by (simp add: sample_msg_def pstate0_def LoadOrStore_def Store_def Delete_def emit_def)

section \<open>Properties of \<open>Close\<close> and \<open>Run\<close>\<close>

lemma receive_loop_retry:
  "errors_Is (fst (recv s)) ErrBackendUnavailable \<Longrightarrow>
   receive_loop recv s = receive_loop recv (snd (recv s))"
  by (subst receive_loop.simps) (simp add: case_prod_beta)

lemma receive_loop_return:
  "\<not> errors_Is (fst (recv s)) ErrBackendUnavailable \<Longrightarrow> receive_loop recv s = Some (recv s)"
  by (subst receive_loop.simps) (simp add: case_prod_beta)

lemma receive_loop_result:
  assumes "receive_loop recv s = Some r"
  shows "\<not> errors_Is (fst r) ErrBackendUnavailable"
  by (rule receive_loop.raw_induct
        [where P = "\<lambda>recv s r. \<not> errors_Is (fst r) ErrBackendUnavailable", OF _ assms])
     (auto simp: case_prod_beta split: if_splits)

lemma after_calls_Suc: "after_calls recv (Suc n) s = after_calls recv n (snd (recv s))"
  by (simp only: after_calls_def funpow_Suc_right o_apply)

lemma receive_loop_after:
  assumes "\<forall>k<n. errors_Is (fst (recv (after_calls recv k s))) ErrBackendUnavailable"
    and "\<not> errors_Is (fst (recv (after_calls recv n s))) ErrBackendUnavailable"
  shows "receive_loop recv s = Some (recv (after_calls recv n s))"
  using assms
proof (induction n arbitrary: s)
  case 0
  then show ?case by (simp add: receive_loop_return after_calls_def)
next
  case (Suc n)
  from Suc.prems(1) have first: "errors_Is (fst (recv s)) ErrBackendUnavailable"
    by (auto simp: after_calls_def dest: spec [of _ 0])
  have "\<forall>k<n. errors_Is (fst (recv (after_calls recv k (snd (recv s))))) ErrBackendUnavailable"
    using Suc.prems(1) by (auto simp: after_calls_Suc [symmetric])
  moreover have "\<not> errors_Is (fst (recv (after_calls recv n (snd (recv s))))) ErrBackendUnavailable"
    using Suc.prems(2) by (simp add: after_calls_Suc)
  ultimately have "receive_loop recv (snd (recv s)) = Some (recv (after_calls recv n (snd (recv s))))"
    by (rule Suc.IH)
  then show ?case
    using first by (simp add: receive_loop_retry [of recv s] after_calls_Suc)
qed

lemma receive_loop_returns_after:
  assumes "receive_loop recv s = Some r"
  shows "\<exists>n. \<not> errors_Is (fst (recv (after_calls recv n s))) ErrBackendUnavailable"
proof (rule receive_loop.raw_induct
        [where P = "\<lambda>recv s r. \<exists>n. \<not> errors_Is (fst (recv (after_calls recv n s))) ErrBackendUnavailable",
         OF _ assms])
  fix loop :: "('a \<Rightarrow> gerror option \<times> 'a) \<Rightarrow> 'a \<Rightarrow> (gerror option \<times> 'a) option"
    and recv s r
  assume IH: "\<And>recv s r. loop recv s = Some r \<Longrightarrow>
      \<exists>n. \<not> errors_Is (fst (recv (after_calls recv n s))) ErrBackendUnavailable"
    and step: "(case recv s of (err, s') \<Rightarrow>
        if errors_Is err ErrBackendUnavailable then loop recv s' else Some (err, s')) = Some r"
  show "\<exists>n. \<not> errors_Is (fst (recv (after_calls recv n s))) ErrBackendUnavailable"
  proof (cases "errors_Is (fst (recv s)) ErrBackendUnavailable")
    case True
    with step have "loop recv (snd (recv s)) = Some r" by (simp add: case_prod_beta)
    from IH [OF this] obtain n where
      "\<not> errors_Is (fst (recv (after_calls recv n (snd (recv s))))) ErrBackendUnavailable" by blast
    then have "\<not> errors_Is (fst (recv (after_calls recv (Suc n) s))) ErrBackendUnavailable"
      by (simp add: after_calls_Suc)
    then show ?thesis by blast
  next
    case False
    then have "\<not> errors_Is (fst (recv (after_calls recv 0 s))) ErrBackendUnavailable"
      by (simp add: after_calls_def)
    then show ?thesis by blast
  qed
qed

lemma receive_loop_forever:
  assumes "\<forall>k. errors_Is (fst (recv (after_calls recv k s))) ErrBackendUnavailable"
  shows "receive_loop recv s = None"
proof (cases "receive_loop recv s")
  case None
  then show ?thesis .
next
  case (Some r)
  from receive_loop_returns_after [OF Some] assms show ?thesis by blast
qed

lemma errgroup_Wait_cases:
  "errgroup_Wait order errs = None \<or> errgroup_Wait order errs \<in> set errs"
proof (cases "List.find (\<lambda>i. i < length errs \<and> errs ! i \<noteq> None) order")
  case None
  then show ?thesis by (simp add: errgroup_Wait_def)
next
  case (Some i)
  then have "i < length errs" by (auto simp: find_Some_iff)
  then have "errs ! i \<in> set errs" by (rule nth_mem)
  with Some show ?thesis by (simp add: errgroup_Wait_def)
qed

lemma Run_goroutine_result:
  "Run_goroutine tel pmm tr ctx cs = Some r \<Longrightarrow> \<not> errors_Is (fst r) ErrBackendUnavailable"
  unfolding Run_goroutine_def by (cases cs) (auto dest: receive_loop_result)

lemma errors_Is_None: "\<not> errors_Is None target"
  by (simp add: errors_Is_def)

lemma Run_result:
  assumes "Run tel pmm order c ctx = Some (err, c')"
  shows "\<not> errors_Is err ErrBackendUnavailable"
proof (cases "Run_start c ctx")
  case (Inl e)
  then have "e = ErrNew ''pubsublite: consumer already started''"
    by (simp add: Run_start_def Let_def split: if_splits)
  with Inl assms show ?thesis by (auto simp: Run_def errors_Is_def)
next
  case (Inr p)
  obtain ctx1 c1 where p: "p = (ctx1, c1)" by (cases p)
  define outs where "outs = map (Run_goroutine tel pmm (tracer c1) (WithCancel ctx1)) (consumers c1)"
  from assms Inr p have none: "\<not> list_ex (\<lambda>out. out = None) outs"
    and err: "err = errgroup_Wait order (map (\<lambda>out. fst (the out)) outs)"
    by (auto simp: Run_def Let_def outs_def split: if_splits)
  show ?thesis
  proof (cases "err = None")
    case True
    then show ?thesis by (simp add: errors_Is_None)
  next
    case False
    with err errgroup_Wait_cases [of order "map (\<lambda>out. fst (the out)) outs"]
    have "err \<in> set (map (\<lambda>out. fst (the out)) outs)" by auto
    then obtain out where out: "out \<in> set outs" and e: "err = fst (the out)" by auto
    have "out \<noteq> None"
    proof
      assume "out = None"
      with out have "list_ex (\<lambda>out. out = None) outs" by (auto simp: list_ex_iff)
      with none show False by simp
    qed
    then obtain r where r: "out = Some r" by (cases out) simp_all
    from out obtain cs where "out = Run_goroutine tel pmm (tracer c1) (WithCancel ctx1) cs"
      unfolding outs_def by (auto simp only: set_map)
    with r have "Run_goroutine tel pmm (tracer c1) (WithCancel ctx1) cs = Some r" by simp
    then have "\<not> errors_Is (fst r) ErrBackendUnavailable" by (rule Run_goroutine_result)
    with e r show ?thesis by simp
  qed
qed

lemma Run_second:
  "stopSubscriber c \<noteq> None \<Longrightarrow>
   Run tel pmm order c ctx = Some (Some (ErrNew ''pubsublite: consumer already started''), c)"
  by (simp add: Run_def Run_start_def)

lemma Run_start_sets: "Run_start c ctx = Inr (ctx', c') \<Longrightarrow> stopSubscriber c' \<noteq> None"
  by (auto simp: Run_start_def Let_def split: if_splits)

lemma Run_sets:
  "Run tel pmm order c ctx = Some (err, c') \<Longrightarrow> stopSubscriber c' \<noteq> None"
  by (auto simp: Run_def Run_start_def Let_def split: if_splits)

lemma Close_nil:
  "stopSubscriber c = None \<Longrightarrow>
   Close c = (Panics ''invalid memory address or nil pointer dereference'', [])"
  by (simp add: Close_def)

lemma Close_started: "stopSubscriber c = Some cancel \<Longrightarrow> Close c = (Returns None, [cancel])"
  by (simp add: Close_def)

text \<open>
  C5. The specification has \<open>Close\<close> on a consumer group that was never run return nil
  without panicking. \<open>Close\<close> calls \<open>c.stopSubscriber\<close> without testing it; on the
  group as \<open>NewConsumer\<close> leaves it the field is nil and the call panics.
\<close>

theorem Close_before_Run_panics:
  "stopSubscriber sample_Consumer = None
   \<and> Close sample_Consumer =
       (Panics ''invalid memory address or nil pointer dereference'', [])"
  by (simp add: sample_Consumer_def Close_def)

text \<open>
  C9. For the receive loop that \<open>Run\<close> starts for a consumer: when \<open>Receive\<close>
  returns an error that is \<open>ErrBackendUnavailable\<close>, the loop calls \<open>Receive\<close>
  again; when it returns anything else (an error or nil), the loop returns that result.
  So a loop that meets \<open>n\<close> such errors and then another result returns that result,
  a loop that meets nothing else never returns, and neither a loop nor \<open>Run\<close> ever
  returns \<open>ErrBackendUnavailable\<close>.
\<close>

theorem receive_loop_retries:
  fixes consumer :: "('w, 'e) consumer" and tel pmm tr ctx
  defines "recv \<equiv> Run_receive tel pmm tr ctx consumer"
  defines "loop \<equiv> \<lambda>s. Run_goroutine tel pmm tr ctx (consumer, s)"
  shows "(transient recv s \<longrightarrow> loop s = loop (snd (recv s)))
       \<and> (\<not> transient recv s \<longrightarrow> loop s = Some (recv s))
       \<and> ((\<forall>k<n. transient recv (after_calls recv k s)) \<and> \<not> transient recv (after_calls recv n s) \<longrightarrow>
            loop s = Some (recv (after_calls recv n s)))
       \<and> ((\<forall>k. transient recv (after_calls recv k s)) \<longrightarrow> loop s = None)
       \<and> (\<forall>r. loop s = Some r \<longrightarrow> \<not> errors_Is (fst r) ErrBackendUnavailable)
       \<and> (\<forall>err c'. Run tel pmm order c ctx0 = Some (err, c') \<longrightarrow>
            \<not> errors_Is err ErrBackendUnavailable)"
proof -
  have l: "loop s = receive_loop recv s" for s
    by (simp add: loop_def recv_def Run_goroutine_def)
  have 1: "transient recv s \<longrightarrow> loop s = loop (snd (recv s))"
    unfolding l transient_def using receive_loop_retry [of recv s] by blast
  have 2: "\<not> transient recv s \<longrightarrow> loop s = Some (recv s)"
    unfolding l transient_def using receive_loop_return [of recv s] by blast
  have 3: "(\<forall>k<n. transient recv (after_calls recv k s)) \<and> \<not> transient recv (after_calls recv n s) \<longrightarrow>
            loop s = Some (recv (after_calls recv n s))"
    unfolding l transient_def using receive_loop_after [of n recv s] by blast
  have 4: "(\<forall>k. transient recv (after_calls recv k s)) \<longrightarrow> loop s = None"
    unfolding l transient_def using receive_loop_forever [of recv s] by blast
  have 5: "\<forall>r. loop s = Some r \<longrightarrow> \<not> errors_Is (fst r) ErrBackendUnavailable"
    unfolding l using receive_loop_result [of recv s] by blast
  have 6: "\<forall>err c'. Run tel pmm order c ctx0 = Some (err, c') \<longrightarrow>
            \<not> errors_Is err ErrBackendUnavailable"
    using Run_result by blast
  from 1 2 3 4 5 6 show ?thesis by blast
qed

theorem receive_loop_retries_witness:
  "Run_goroutine sample_tel sample_pmm (Tracer ''pubsublite'') Background
     (sample_consumer AtLeastOnceDeliveryType 0, pstate0) =
     Some (Some (ErrNew ''permission denied''), pstate0\<lparr>ext := 3\<rparr>)"
  using receive_loop_retries [where consumer = "sample_consumer AtLeastOnceDeliveryType 0"
      and tel = sample_tel and pmm = sample_pmm and tr = "Tracer ''pubsublite''"
      and ctx = Background and s = pstate0 and n = 2
      and order = "[0]" and c = sample_Consumer and ?ctx0.0 = Background,
      THEN conjunct2, THEN conjunct2, THEN conjunct1]
  by (simp add: Run_receive_def transient_def sample_consumer_def sample_Receive_def pstate0_def
      after_calls_def errors_Is_def numeral_2_eq_2 numeral_3_eq_3 less_Suc_eq)

text \<open>
  C7. \<open>Run\<close> on a consumer group whose cancel function is set returns the error
  \<open>pubsublite: consumer already started\<close> and the group unchanged: no \<open>Receive\<close>
  is called and the stored cancel function stays. The cancel function is set as soon as
  a first \<open>Run\<close> has passed its first lines, and still when that \<open>Run\<close> has
  returned.
\<close>

theorem Run_already_started:
  fixes c c0 :: "('w, 'e) Consumer"
  defines "already \<equiv> Some (ErrNew ''pubsublite: consumer already started'')"
  shows "(stopSubscriber c \<noteq> None \<longrightarrow> Run tel pmm order c ctx = Some (already, c))
       \<and> (\<forall>ctx1 c1. Run_start c0 ctx0 = Inr (ctx1, c1) \<longrightarrow>
            Run tel pmm order c1 ctx = Some (already, c1))
       \<and> (\<forall>err c1. Run tel0 pmm0 order0 c0 ctx0 = Some (err, c1) \<longrightarrow>
            Run tel pmm order c1 ctx = Some (already, c1))"
  unfolding already_def
  using Run_second [of _ tel pmm order ctx] Run_start_sets [of c0 ctx0]
    Run_sets [of tel0 pmm0 order0 c0 ctx0]
  by blast

theorem Run_already_started_witness:
  "Run_start sample_Consumer Background =
     Inr (WithCancel Background,
          sample_Consumer\<lparr>stopSubscriber := Some (CancelFunc (WithCancel Background))\<rparr>)
   \<and> Run sample_tel sample_pmm [0]
        (sample_Consumer\<lparr>stopSubscriber := Some (CancelFunc (WithCancel Background))\<rparr>)
        Background =
       Some (Some (ErrNew ''pubsublite: consumer already started''),
             sample_Consumer\<lparr>stopSubscriber := Some (CancelFunc (WithCancel Background))\<rparr>)"
  using Run_already_started [where ?c0.0 = sample_Consumer and ?ctx0.0 = Background
      and tel = sample_tel and pmm = sample_pmm and order = "[0]" and ctx = Background
      and c = "sample_Consumer\<lparr>stopSubscriber := Some (CancelFunc (WithCancel Background))\<rparr>"
      and ?tel0.0 = sample_tel and ?pmm0.0 = sample_pmm and ?order0.0 = "[0]",
      THEN conjunct2, THEN conjunct1]
  by (simp add: Run_start_def sample_Consumer_def Let_def)

end
